theory Spec2Isabelle
  imports Main
begin

section \<open>The compute primitive of the Scoot runtime library\<close>

text \<open>
  An embedding of \<^verbatim>\<open>lib/resources/compute.js\<close>. JavaScript objects live in a store and are
  named by their address, so that \<^verbatim>\<open>===\<close> on objects is equality of addresses and a
  connection that holds an object holds its address. Every function takes the store and
  returns it updated; an exception is the left summand of the result.
\<close>

subsection \<open>Values\<close>

text \<open>The kind tags exported by \<^verbatim>\<open>lib/types\<close>.\<close>

datatype kind = Compute | InternalEvent

text \<open>
  The exceptions. \<^verbatim>\<open>assert(value, message)\<close> throws an AssertionError that carries the
  message: the specification calls it MissingArgument. TypeError is the exception of the
  language for a property read on \<^verbatim>\<open>undefined\<close>.
\<close>

datatype error =
    MissingArgument string
  | InvalidIdentifier
  | ImmutableFieldError
  | TypeError

type_synonym addr = nat

text \<open>The connection objects: \<^verbatim>\<open>from\<close> and \<open>to\<close> hold objects, that is, addresses.\<close>

record trigger_conn =
  trigger_from :: addr
  trigger_to :: addr

record reference_conn =
  ref_name :: string
  ref_from :: addr
  ref_to :: addr
  ref_allow :: "string list"

text \<open>\<^verbatim>\<open>self.meta\<close>: the fields \<^verbatim>\<open>id\<close> and \<^verbatim>\<open>type\<close>.\<close>

record metadata =
  meta_id :: string
  meta_type :: kind

text \<open>
  \<^verbatim>\<open>self.config\<close>. The fields \<^verbatim>\<open>vcs\<close>, \<^verbatim>\<open>code\<close> and \<^verbatim>\<open>description\<close> are absent
  (\<open>None\<close>) until their setter is called; \<^verbatim>\<open>environment\<close> and \<^verbatim>\<open>tags\<close> are objects used as
  dictionaries.
\<close>

record configuration =
  config_id :: string
  runtime :: string
  triggers :: "trigger_conn list"
  references :: "reference_conn list"
  environment :: "string \<rightharpoonup> string"
  tags :: "string \<rightharpoonup> string"
  config_vcs :: "string option"
  config_code :: "string option"
  config_description :: "string option"

text \<open>
  The object \<^verbatim>\<open>self\<close> of a compute instance, with what the three freezing calls of the
  constructor leave on it: whether \<^verbatim>\<open>self.meta\<close> went through \<^verbatim>\<open>Object.freeze\<close>, and the
  field names sealed on \<^verbatim>\<open>self\<close> and on \<^verbatim>\<open>self.config\<close>.
\<close>

record compute_obj =
  meta :: metadata
  config :: configuration
  meta_frozen :: bool
  self_sealed :: "string list"
  config_sealed :: "string list"

text \<open>An internal event, as the test reads it: \<^verbatim>\<open>event._meta.type\<close>.\<close>

record ievent_obj =
  event_meta_type :: kind
  event_name :: string

datatype obj = ComputeObj compute_obj | EventObj ievent_obj

text \<open>
  The state of the process: the store of objects (an object's address is its index; a
  new object goes at the end), the number of identifiers \<^verbatim>\<open>uuid()\<close> has issued, and the
  values the generator of \<^verbatim>\<open>uuid/v4\<close> yields, in call order. The package is a random
  generator outside the repository: nothing is assumed of these values.
\<close>

record state =
  heap :: "obj list"
  issued :: nat
  entropy :: "nat \<Rightarrow> string"

definition alloc :: "state \<Rightarrow> obj \<Rightarrow> addr \<times> state" where
  "alloc st ob = (length (heap st), st\<lparr>heap := heap st @ [ob]\<rparr>)"

definition lookup :: "state \<Rightarrow> addr \<Rightarrow> obj option" where
  "lookup st a = (if a < length (heap st) then Some (heap st ! a) else None)"

definition compute_at :: "state \<Rightarrow> addr \<Rightarrow> compute_obj option" where
  "compute_at st a =
     (case lookup st a of Some (ComputeObj c) \<Rightarrow> Some c | _ \<Rightarrow> None)"

definition event_at :: "state \<Rightarrow> addr \<Rightarrow> ievent_obj option" where
  "event_at st a =
     (case lookup st a of Some (EventObj e) \<Rightarrow> Some e | _ \<Rightarrow> None)"

text \<open>A write \<^verbatim>\<open>self.config.f = v\<close> through the live object at \<open>self\<close>.\<close>

definition update_config :: "state \<Rightarrow> addr \<Rightarrow> (configuration \<Rightarrow> configuration) \<Rightarrow> state" where
  "update_config st self f =
     (case compute_at st self of
        Some c \<Rightarrow> st\<lparr>heap := (heap st)[self := ComputeObj (c\<lparr>config := f (config c)\<rparr>)]\<rparr>
      | None \<Rightarrow> st)"

subsection \<open>The collaborators of the constructor\<close>

text \<open>\<^verbatim>\<open>uuid()\<close>: the next value of the generator.\<close>

definition uuid :: "state \<Rightarrow> string \<times> state" where
  "uuid st = (entropy st (issued st), st\<lparr>issued := Suc (issued st)\<rparr>)"

definition alphanumerics :: string where
  "alphanumerics = ''abcdefghijklmnopqrstuvwxyzABCDEFGHIJKLMNOPQRSTUVWXYZ0123456789''"

text \<open>
  Modelled from the spec: the identifier grammar of \<^verbatim>\<open>validateId\<close> (\<^verbatim>\<open>lib/utils\<close> is not
  among the sources). The specification gives a valid identifier as letters and digits,
  with no embedded whitespace.
\<close>

definition grammar_ok :: "string \<Rightarrow> bool" where
  "grammar_ok label = list_all (\<lambda>c. c \<in> set alphanumerics) label"

text \<open>
  Modelled from the spec: \<^verbatim>\<open>validateId\<close> succeeds silently on a label of the grammar and
  fails with InvalidIdentifier on any other.
\<close>

definition validateId :: "string \<Rightarrow> error + unit" where
  "validateId label = (if grammar_ok label then Inr () else Inl InvalidIdentifier)"

text \<open>
  Modelled from the spec: the immutability guard \<^verbatim>\<open>freeze(object, field)\<close> of
  \<^verbatim>\<open>lib/utils\<close> adds the field to the sealed fields of the object.
\<close>

definition freeze :: "string list \<Rightarrow> string \<Rightarrow> string list" where
  "freeze sealed field = List.insert field sealed"

text \<open>
  Modelled from the spec: the connection builders \<^verbatim>\<open>trigger().from(event).to(resource)\<close>
  and \<^verbatim>\<open>ref(name).from(resource).to(target).allow(actions)\<close> of \<^verbatim>\<open>lib/connections\<close>
  assemble the edge object from their arguments and do nothing else.
\<close>

definition trigger :: "addr \<Rightarrow> addr \<Rightarrow> trigger_conn" where
  "trigger event resource = \<lparr>trigger_from = event, trigger_to = resource\<rparr>"

definition ref :: "string \<Rightarrow> addr \<Rightarrow> addr \<Rightarrow> string list \<Rightarrow> reference_conn" where
  "ref name resource target actions =
     \<lparr>ref_name = name, ref_from = resource, ref_to = target, ref_allow = actions\<rparr>"

subsection \<open>The constructor\<close>

text \<open>
  \<^verbatim>\<open>compute(id, runtime)\<close>. A string is falsy exactly when it is empty. The two assertions
  and the validation come before the object literal, which calls \<^verbatim>\<open>uuid()\<close>; then the three
  freezing calls; \<^verbatim>\<open>Object.assign\<close> attaches the methods and returns \<^verbatim>\<open>self\<close>.
\<close>

definition compute :: "state \<Rightarrow> string \<Rightarrow> string \<Rightarrow> (error + addr) \<times> state" where
  "compute st ident rt =
     (if ident = [] then
        (Inl (MissingArgument ''Failed to create compute object: missing id''), st)
      else if rt = [] then
        (Inl (MissingArgument ''Failed to create compute object: missing runtime''), st)
      else
        (case validateId ident of
           Inl e \<Rightarrow> (Inl e, st)
         | Inr _ \<Rightarrow>
             let (u, st1) = uuid st;
                 self0 = \<lparr>meta = \<lparr>meta_id = u, meta_type = Compute\<rparr>,
                          config = \<lparr>config_id = ident, runtime = rt, triggers = [],
                                    references = [], environment = Map.empty,
                                    tags = Map.empty, config_vcs = None,
                                    config_code = None, config_description = None\<rparr>,
                          meta_frozen = False, self_sealed = [], config_sealed = []\<rparr>;
                 self1 = self0\<lparr>meta_frozen := True\<rparr>;
                 self2 = self1\<lparr>self_sealed := freeze (self_sealed self1) ''meta''\<rparr>;
                 self3 = self2\<lparr>config_sealed := freeze (config_sealed self2) ''id''\<rparr>;
                 (self, st2) = alloc st1 (ComputeObj self3)
             in (Inr self, st2)))"

subsection \<open>The fluent methods\<close>

text \<open>
  Each method is a closure over \<^verbatim>\<open>self\<close>: calling it on the object at \<open>self\<close> runs the
  function below with that address.
\<close>

definition vcs :: "state \<Rightarrow> addr \<Rightarrow> string \<Rightarrow> (error + addr) \<times> state" where
  "vcs st self url = (Inr self, update_config st self (\<lambda>c. c\<lparr>config_vcs := Some url\<rparr>))"

definition code :: "state \<Rightarrow> addr \<Rightarrow> string \<Rightarrow> (error + addr) \<times> state" where
  "code st self content =
     (Inr self, update_config st self (\<lambda>c. c\<lparr>config_code := Some content\<rparr>))"

definition description :: "state \<Rightarrow> addr \<Rightarrow> string \<Rightarrow> (error + addr) \<times> state" where
  "description st self txt =
     (Inr self, update_config st self (\<lambda>c. c\<lparr>config_description := Some txt\<rparr>))"

text \<open>
  \<^verbatim>\<open>object[name] = value\<close> on an object literal stores the entry, except for the name
  \<^verbatim>\<open>__proto__\<close>, whose setter ignores a string.
\<close>

definition put :: "(string \<rightharpoonup> string) \<Rightarrow> string \<Rightarrow> string \<Rightarrow> (string \<rightharpoonup> string)" where
  "put dict name v = (if name = ''__proto__'' then dict else dict(name \<mapsto> v))"

definition env :: "state \<Rightarrow> addr \<Rightarrow> string \<Rightarrow> string \<Rightarrow> (error + addr) \<times> state" where
  "env st self name v =
     (Inr self, update_config st self (\<lambda>c. c\<lparr>environment := put (environment c) name v\<rparr>))"

definition tag :: "state \<Rightarrow> addr \<Rightarrow> string \<Rightarrow> string \<Rightarrow> (error + addr) \<times> state" where
  "tag st self key v =
     (Inr self, update_config st self (\<lambda>c. c\<lparr>tags := put (tags c) key v\<rparr>))"

definition on :: "state \<Rightarrow> addr \<Rightarrow> addr \<Rightarrow> (error + addr) \<times> state" where
  "on st self event =
     (Inr self,
      update_config st self (\<lambda>c. c\<lparr>triggers := triggers c @ [trigger event self]\<rparr>))"

text \<open>
  \<^verbatim>\<open>use(resource, actions, alias)\<close> reads \<^verbatim>\<open>resource.config.id\<close> first: on an argument that
  has no \<^verbatim>\<open>config\<close> the read throws, before anything is written. The alias replaces the
  default name when it is truthy: given, and not the empty string.
\<close>

definition use ::
  "state \<Rightarrow> addr \<Rightarrow> addr \<Rightarrow> string list \<Rightarrow> string option \<Rightarrow> (error + addr) \<times> state" where
  "use st self resource actions alias =
     (case compute_at st resource of
        None \<Rightarrow> (Inl TypeError, st)
      | Some target \<Rightarrow>
          let name0 = config_id (config target) @ ''Ref'';
              name = (case alias of
                        None \<Rightarrow> name0
                      | Some a \<Rightarrow> if a \<noteq> [] then a else name0)
          in (Inr self,
              update_config st self
                (\<lambda>c. c\<lparr>references := references c @ [ref name self resource actions]\<rparr>)))"

subsection \<open>The event factory\<close>

text \<open>
  Modelled from the spec: \<^verbatim>\<open>lib/events/ievent\<close> is not among the sources (its test is).
  \<^verbatim>\<open>ievent(name)\<close> validates the name, then returns an internal event whose kind tag is
  InternalEvent.
\<close>

definition ievent :: "state \<Rightarrow> string \<Rightarrow> (error + addr) \<times> state" where
  "ievent st name =
     (case validateId name of
        Inl e \<Rightarrow> (Inl e, st)
      | Inr _ \<Rightarrow>
          let (event, st1) =
                alloc st (EventObj \<lparr>event_meta_type = InternalEvent, event_name = name\<rparr>)
          in (Inr event, st1))"

subsection \<open>Assignments from outside\<close>

text \<open>
  Modelled from the spec: an assignment to a field the immutability guard sealed fails
  with ImmutableFieldError and writes nothing; an assignment to any other field writes
  it. \<^verbatim>\<open>r.meta = m\<close> is checked against the fields sealed on the object,
  \<^verbatim>\<open>r.config.f = v\<close> against those sealed on its \<^verbatim>\<open>config\<close>.
\<close>

datatype config_write =
    Set_id string
  | Set_runtime string
  | Set_triggers "trigger_conn list"
  | Set_references "reference_conn list"
  | Set_environment "string \<rightharpoonup> string"
  | Set_tags "string \<rightharpoonup> string"
  | Set_vcs string
  | Set_code string
  | Set_description string

fun field_name :: "config_write \<Rightarrow> string" where
  "field_name (Set_id _) = ''id''"
| "field_name (Set_runtime _) = ''runtime''"
| "field_name (Set_triggers _) = ''triggers''"
| "field_name (Set_references _) = ''references''"
| "field_name (Set_environment _) = ''environment''"
| "field_name (Set_tags _) = ''tags''"
| "field_name (Set_vcs _) = ''vcs''"
| "field_name (Set_code _) = ''code''"
| "field_name (Set_description _) = ''description''"

fun write_field :: "config_write \<Rightarrow> configuration \<Rightarrow> configuration" where
  "write_field (Set_id v) c = c\<lparr>config_id := v\<rparr>"
| "write_field (Set_runtime v) c = c\<lparr>runtime := v\<rparr>"
| "write_field (Set_triggers v) c = c\<lparr>triggers := v\<rparr>"
| "write_field (Set_references v) c = c\<lparr>references := v\<rparr>"
| "write_field (Set_environment v) c = c\<lparr>environment := v\<rparr>"
| "write_field (Set_tags v) c = c\<lparr>tags := v\<rparr>"
| "write_field (Set_vcs v) c = c\<lparr>config_vcs := Some v\<rparr>"
| "write_field (Set_code v) c = c\<lparr>config_code := Some v\<rparr>"
| "write_field (Set_description v) c = c\<lparr>config_description := Some v\<rparr>"

definition assign_meta :: "state \<Rightarrow> addr \<Rightarrow> metadata \<Rightarrow> (error + unit) \<times> state" where
  "assign_meta st r m =
     (case compute_at st r of
        None \<Rightarrow> (Inl TypeError, st)
      | Some c \<Rightarrow>
          if ''meta'' \<in> set (self_sealed c) then (Inl ImmutableFieldError, st)
          else (Inr (), st\<lparr>heap := (heap st)[r := ComputeObj (c\<lparr>meta := m\<rparr>)]\<rparr>))"

definition assign_config :: "state \<Rightarrow> addr \<Rightarrow> config_write \<Rightarrow> (error + unit) \<times> state" where
  "assign_config st r w =
     (case compute_at st r of
        None \<Rightarrow> (Inl TypeError, st)
      | Some c \<Rightarrow>
          if field_name w \<in> set (config_sealed c) then (Inl ImmutableFieldError, st)
          else (Inr (), update_config st r (write_field w)))"

subsection \<open>Method calls, chains and build scripts\<close>

datatype call =
    Vcs string
  | Code string
  | Description string
  | Env string string
  | Tag string string
  | On addr
  | Use addr "string list" "string option"

fun invoke :: "state \<Rightarrow> addr \<Rightarrow> call \<Rightarrow> (error + addr) \<times> state" where
  "invoke st self (Vcs url) = vcs st self url"
| "invoke st self (Code content) = code st self content"
| "invoke st self (Description txt) = description st self txt"
| "invoke st self (Env name v) = env st self name v"
| "invoke st self (Tag key v) = tag st self key v"
| "invoke st self (On event) = on st self event"
| "invoke st self (Use resource actions alias) = use st self resource actions alias"

text \<open>
  A chain \<^verbatim>\<open>r.m1(..).m2(..)\<close>: each method is called on the value the one before
  returned; an exception ends the chain.
\<close>

fun chain :: "state \<Rightarrow> addr \<Rightarrow> call list \<Rightarrow> (error + addr) \<times> state" where
  "chain st r [] = (Inr r, st)"
| "chain st r (c # cs) =
     (case invoke st r c of
        (Inl e, st') \<Rightarrow> (Inl e, st')
      | (Inr r', st') \<Rightarrow> chain st' r' cs)"

text \<open>
  A build script: constructor calls, method calls and assignments on any object, in any
  order. A statement that throws leaves the store as the exception found it, and the
  script goes on (the caller caught it).
\<close>

datatype statement =
    New_compute string string
  | New_event string
  | Call addr call
  | Assign_meta addr metadata
  | Assign_config addr config_write

fun run :: "state \<Rightarrow> statement \<Rightarrow> state" where
  "run st (New_compute ident rt) = snd (compute st ident rt)"
| "run st (New_event name) = snd (ievent st name)"
| "run st (Call r c) = snd (invoke st r c)"
| "run st (Assign_meta r m) = snd (assign_meta st r m)"
| "run st (Assign_config r w) = snd (assign_config st r w)"

fun exec :: "state \<Rightarrow> statement list \<Rightarrow> state" where
  "exec st [] = st"
| "exec st (s # ss) = exec (run st s) ss"

text \<open>What a caller reads: \<^verbatim>\<open>r.config.triggers\<close> and \<^verbatim>\<open>r.config.references\<close>.\<close>

definition triggers_of :: "state \<Rightarrow> addr \<Rightarrow> trigger_conn list option" where
  "triggers_of st r = map_option (\<lambda>c. triggers (config c)) (compute_at st r)"

definition references_of :: "state \<Rightarrow> addr \<Rightarrow> reference_conn list option" where
  "references_of st r = map_option (\<lambda>c. references (config c)) (compute_at st r)"

text \<open>
  A call that finds what it reads: \<^verbatim>\<open>use\<close> needs a target that has a \<^verbatim>\<open>config\<close>, the
  other methods read nothing of their arguments.
\<close>

fun callable :: "state \<Rightarrow> call \<Rightarrow> bool" where
  "callable st (Use resource actions alias) = (compute_at st resource \<noteq> None)"
| "callable st c = True"

text \<open>
  The part of a compute object the constructor fixes: \<^verbatim>\<open>meta\<close>, \<^verbatim>\<open>config.id\<close> and the
  sealed fields.
\<close>

definition sealed_part :: "compute_obj \<Rightarrow> metadata \<times> string \<times> string list \<times> string list" where
  "sealed_part c = (meta c, config_id (config c), self_sealed c, config_sealed c)"

definition is_sealed :: "compute_obj \<Rightarrow> bool" where
  "is_sealed c = (''meta'' \<in> set (self_sealed c) \<and> ''id'' \<in> set (config_sealed c))"

subsection \<open>A sample process\<close>

definition sample_entropy :: "nat \<Rightarrow> string" where
  "sample_entropy n = ''uuid-'' @ replicate n CHR ''x''"

definition boot :: state where
  "boot = \<lparr>heap = [], issued = 0, entropy = sample_entropy\<rparr>"

text \<open>A script for the first object of a process: method calls and assignments.\<close>

definition worker_script :: "statement list" where
  "worker_script =
     [Call 0 (Tag ''a'' ''b''), Assign_config 0 (Set_id ''other''),
      Assign_config 0 (Set_runtime ''python''), New_event ''MyInternalEvent'',
      Call 0 (On 1)]"

text \<open>Two compute instances and an internal event, at the addresses 0, 1 and 2.\<close>

definition site :: state where
  "site = exec boot [New_compute ''worker'' ''nodejs'', New_compute ''store'' ''nodejs'',
                     New_event ''MyInternalEvent'']"

section \<open>Properties\<close>

subsection \<open>Reading the store\<close>

lemma compute_at_alloc:
  "compute_at (snd (alloc st ob)) a =
     (if a = length (heap st) then (case ob of ComputeObj c \<Rightarrow> Some c | EventObj _ \<Rightarrow> None)
      else compute_at st a)"
  by (simp add: compute_at_def lookup_def alloc_def nth_append)

lemma compute_at_update_config:
  "compute_at (update_config st self f) a =
     (if a = self then map_option (\<lambda>c. c\<lparr>config := f (config c)\<rparr>) (compute_at st a)
      else compute_at st a)"
  by (auto simp: update_config_def compute_at_def lookup_def split: option.splits obj.splits)

lemma compute_at_in_heap: "compute_at st a = Some c \<Longrightarrow> a < length (heap st)"
  by (simp add: compute_at_def lookup_def split: if_splits)

lemma site_value:
  "site = \<lparr>heap =
      [ComputeObj \<lparr>meta = \<lparr>meta_id = ''uuid-'', meta_type = Compute\<rparr>,
         config = \<lparr>config_id = ''worker'', runtime = ''nodejs'', triggers = [],
                   references = [], environment = Map.empty, tags = Map.empty,
                   config_vcs = None, config_code = None, config_description = None\<rparr>,
         meta_frozen = True, self_sealed = [''meta''], config_sealed = [''id'']\<rparr>,
       ComputeObj \<lparr>meta = \<lparr>meta_id = ''uuid-x'', meta_type = Compute\<rparr>,
         config = \<lparr>config_id = ''store'', runtime = ''nodejs'', triggers = [],
                   references = [], environment = Map.empty, tags = Map.empty,
                   config_vcs = None, config_code = None, config_description = None\<rparr>,
         meta_frozen = True, self_sealed = [''meta''], config_sealed = [''id'']\<rparr>,
       EventObj \<lparr>event_meta_type = InternalEvent, event_name = ''MyInternalEvent''\<rparr>],
     issued = 2, entropy = sample_entropy\<rparr>"
  by (simp add: site_def boot_def compute_def ievent_def validateId_def grammar_ok_def
      alphanumerics_def uuid_def alloc_def freeze_def sample_entropy_def)

lemma site_worker:
  "compute_at site 0 = Some \<lparr>meta = \<lparr>meta_id = ''uuid-'', meta_type = Compute\<rparr>,
         config = \<lparr>config_id = ''worker'', runtime = ''nodejs'', triggers = [],
                   references = [], environment = Map.empty, tags = Map.empty,
                   config_vcs = None, config_code = None, config_description = None\<rparr>,
         meta_frozen = True, self_sealed = [''meta''], config_sealed = [''id'']\<rparr>"
  by (simp add: site_value compute_at_def lookup_def)

lemma site_store:
  "compute_at site 1 = Some \<lparr>meta = \<lparr>meta_id = ''uuid-x'', meta_type = Compute\<rparr>,
         config = \<lparr>config_id = ''store'', runtime = ''nodejs'', triggers = [],
                   references = [], environment = Map.empty, tags = Map.empty,
                   config_vcs = None, config_code = None, config_description = None\<rparr>,
         meta_frozen = True, self_sealed = [''meta''], config_sealed = [''id'']\<rparr>"
  by (simp add: site_value compute_at_def lookup_def)

lemma site_event: "compute_at site 2 = None"
  by (simp add: site_value compute_at_def lookup_def)

subsection \<open>Construction\<close>

text \<open>
  C1. For every label that is not empty and passes the identifier validator, and every
  runtime that is not empty, \<^verbatim>\<open>compute(id, runtime)\<close> returns a resource (the new object,
  at the end of the store) whose \<^verbatim>\<open>config.id\<close> is the label, whose
  \<^verbatim>\<open>config.runtime\<close> is the runtime and whose \<^verbatim>\<open>meta.type\<close> is the Compute tag.
\<close>

theorem compute_builds_resource:
  assumes "ident \<noteq> []" and "grammar_ok ident" and "rt \<noteq> []"
  shows "\<exists>c. fst (compute st ident rt) = Inr (length (heap st)) \<and>
           compute_at (snd (compute st ident rt)) (length (heap st)) = Some c \<and>
           config_id (config c) = ident \<and> runtime (config c) = rt \<and>
           meta_type (meta c) = Compute"
  using assms
  by (simp add: compute_def validateId_def uuid_def alloc_def compute_at_def lookup_def)

theorem compute_builds_resource_witness:
  "\<exists>c. fst (compute boot ''worker'' ''nodejs'') = Inr 0 \<and>
       compute_at (snd (compute boot ''worker'' ''nodejs'')) 0 = Some c \<and>
       config_id (config c) = ''worker'' \<and> runtime (config c) = ''nodejs'' \<and>
       meta_type (meta c) = Compute"
proof -
  have g: "grammar_ok ''worker''"
    by (simp add: grammar_ok_def alphanumerics_def)
  have "length (heap boot) = 0"
    by (simp add: boot_def)
  with compute_builds_resource [of "''worker''" "''nodejs''" boot] g show ?thesis
    by simp
qed

text \<open>
  C2. With an empty label or an empty runtime, \<^verbatim>\<open>compute\<close> fails with MissingArgument
  (the assertion error) and the state of the process is what it was: no object was put
  in the store and no identifier was drawn from the generator.
\<close>

theorem compute_missing_argument:
  assumes "ident = [] \<or> rt = []"
  shows "compute st ident rt =
           (Inl (MissingArgument
                  (if ident = [] then ''Failed to create compute object: missing id''
                   else ''Failed to create compute object: missing runtime'')), st)"
  using assms by (auto simp: compute_def)

theorem compute_missing_argument_witness:
  "compute boot [] ''nodejs'' =
     (Inl (MissingArgument ''Failed to create compute object: missing id''), boot) \<and>
   compute boot ''worker'' [] =
     (Inl (MissingArgument ''Failed to create compute object: missing runtime''), boot) \<and>
   compute boot [] [] =
     (Inl (MissingArgument ''Failed to create compute object: missing id''), boot)"
  using compute_missing_argument [of "[]" "''nodejs''" boot]
    compute_missing_argument [of "''worker''" "[]" boot]
    compute_missing_argument [of "[]" "[]" boot]
  by simp

text \<open>
  The claim C3 as it is written fails on the constructor: with an empty runtime the second
  assertion throws before the label reaches the validator.
\<close>

theorem bad_id_without_runtime:
  "''my-bad id-for my event'' \<noteq> [] \<and> \<not> grammar_ok ''my-bad id-for my event'' \<and>
   compute boot ''my-bad id-for my event'' [] =
     (Inl (MissingArgument ''Failed to create compute object: missing runtime''), boot) \<and>
   fst (compute boot ''my-bad id-for my event'' []) \<noteq> Inl InvalidIdentifier"
  by (simp add: compute_def grammar_ok_def alphanumerics_def)

text \<open>
  C3, amended. For every label that fails the identifier grammar (such a label is not
  empty), \<^verbatim>\<open>compute\<close> called with a runtime that is not empty and the event factory both
  fail with the validator's InvalidIdentifier, and the state is what it was; the label
  \<^verbatim>\<open>my-bad id-for my event\<close> is one of them. For a name of the grammar the event factory
  returns an event whose kind tag is InternalEvent.
\<close>

theorem validated_labels:
  "(\<not> grammar_ok label \<longrightarrow>
      label \<noteq> [] \<and>
      (rt \<noteq> [] \<longrightarrow> compute st label rt = (Inl InvalidIdentifier, st)) \<and>
      ievent st label = (Inl InvalidIdentifier, st)) \<and>
   (grammar_ok label \<longrightarrow>
      (\<exists>ev. fst (ievent st label) = Inr (length (heap st)) \<and>
         event_at (snd (ievent st label)) (length (heap st)) = Some ev \<and>
         event_meta_type ev = InternalEvent)) \<and>
   compute st ''my-bad id-for my event'' ''nodejs'' = (Inl InvalidIdentifier, st) \<and>
   ievent st ''my-bad id-for my event'' = (Inl InvalidIdentifier, st)"
proof -
  have bad: "\<not> grammar_ok ''my-bad id-for my event''"
    by (simp add: grammar_ok_def alphanumerics_def)
  have "compute st ''my-bad id-for my event'' ''nodejs'' = (Inl InvalidIdentifier, st)"
    using bad by (simp add: compute_def validateId_def)
  moreover have "ievent st ''my-bad id-for my event'' = (Inl InvalidIdentifier, st)"
    using bad by (simp add: ievent_def validateId_def)
  moreover have "\<not> grammar_ok label \<longrightarrow> label \<noteq> []"
    by (auto simp: grammar_ok_def)
  ultimately show ?thesis
    by (simp add: compute_def ievent_def validateId_def alloc_def event_at_def lookup_def)
qed

theorem validated_labels_witness:
  "compute boot ''my-bad id-for my event'' ''nodejs'' = (Inl InvalidIdentifier, boot) \<and>
   ievent boot ''my-bad id-for my event'' = (Inl InvalidIdentifier, boot) \<and>
   (\<exists>ev. fst (ievent boot ''MyInternalEvent'') = Inr 0 \<and>
      event_at (snd (ievent boot ''MyInternalEvent'')) 0 = Some ev \<and>
      event_meta_type ev = InternalEvent)"
proof -
  have bad: "\<not> grammar_ok ''my-bad id-for my event''"
    by (simp add: grammar_ok_def alphanumerics_def)
  have good: "grammar_ok ''MyInternalEvent''"
    by (simp add: grammar_ok_def alphanumerics_def)
  have len: "length (heap boot) = 0"
    by (simp add: boot_def)
  from validated_labels [of "''my-bad id-for my event''" "''nodejs''" boot] bad
  have 1: "compute boot ''my-bad id-for my event'' ''nodejs'' = (Inl InvalidIdentifier, boot) \<and>
        ievent boot ''my-bad id-for my event'' = (Inl InvalidIdentifier, boot)"
    by simp
  from validated_labels [of "''MyInternalEvent''" "''nodejs''" boot] good len
  have 2: "\<exists>ev. fst (ievent boot ''MyInternalEvent'') = Inr 0 \<and>
      event_at (snd (ievent boot ''MyInternalEvent'')) 0 = Some ev \<and>
      event_meta_type ev = InternalEvent"
    by simp
  from 1 2 show ?thesis by simp
qed

subsection \<open>Connections\<close>

text \<open>
  C4. On a resource \<open>r\<close> and a target \<open>t\<close> that has a config, \<^verbatim>\<open>use(t, actions)\<close> with no
  alias returns \<open>r\<close> and leaves the references of \<open>r\<close> as they were, followed by one
  reference named \<^verbatim>\<open>t.config.id + "Ref"\<close>, from \<open>r\<close> to \<open>t\<close>, allowing the actions;
  \<^verbatim>\<open>use(t, actions, "customAlias")\<close> does the same with the name \<^verbatim>\<open>customAlias\<close>.
\<close>

theorem use_appends_reference:
  assumes "compute_at st r = Some c" and "compute_at st t = Some d"
  shows "fst (use st r t actions None) = Inr r \<and>
         references_of (snd (use st r t actions None)) r =
           Some (references (config c) @
             [\<lparr>ref_name = config_id (config d) @ ''Ref'', ref_from = r, ref_to = t,
               ref_allow = actions\<rparr>]) \<and>
         fst (use st r t actions (Some ''customAlias'')) = Inr r \<and>
         references_of (snd (use st r t actions (Some ''customAlias''))) r =
           Some (references (config c) @
             [\<lparr>ref_name = ''customAlias'', ref_from = r, ref_to = t, ref_allow = actions\<rparr>])"
  using assms by (simp add: use_def references_of_def compute_at_update_config ref_def)

theorem use_appends_reference_witness:
  "fst (use site 0 1 [''read''] None) = Inr 0 \<and>
   references_of (snd (use site 0 1 [''read''] None)) 0 =
     Some [\<lparr>ref_name = ''storeRef'', ref_from = 0, ref_to = 1, ref_allow = [''read'']\<rparr>] \<and>
   fst (use site 0 1 [''read''] (Some ''customAlias'')) = Inr 0 \<and>
   references_of (snd (use site 0 1 [''read''] (Some ''customAlias''))) 0 =
     Some [\<lparr>ref_name = ''customAlias'', ref_from = 0, ref_to = 1, ref_allow = [''read'']\<rparr>]"
  using use_appends_reference [OF site_worker site_store, of "[''read'']"] by simp

text \<open>
  C10. An alias that is the empty string is falsy: the appended reference is named
  \<^verbatim>\<open>t.config.id + "Ref"\<close>, not by the empty string.
\<close>

theorem use_empty_alias:
  assumes "compute_at st r = Some c" and "compute_at st t = Some d"
  shows "references_of (snd (use st r t actions (Some []))) r =
           Some (references (config c) @
             [\<lparr>ref_name = config_id (config d) @ ''Ref'', ref_from = r, ref_to = t,
               ref_allow = actions\<rparr>])"
  using assms by (simp add: use_def references_of_def compute_at_update_config ref_def)

theorem use_empty_alias_witness:
  "references_of (snd (use site 0 1 [''read''] (Some []))) 0 =
     Some [\<lparr>ref_name = ''storeRef'', ref_from = 0, ref_to = 1, ref_allow = [''read'']\<rparr>]"
  using use_empty_alias [OF site_worker site_store, of "[''read'']"] by simp

text \<open>
  C5. \<^verbatim>\<open>on(e)\<close> on a resource \<open>r\<close> returns \<open>r\<close> and leaves the triggers of \<open>r\<close> as they
  were, followed by one trigger whose \<^verbatim>\<open>from\<close> is the object \<open>e\<close> and whose \<^verbatim>\<open>to\<close> is the
  object \<open>r\<close>: the addresses themselves, so that reading through the connection finds the
  live objects.
\<close>

theorem on_appends_trigger:
  assumes "compute_at st r = Some c"
  shows "fst (on st r e) = Inr r \<and>
         triggers_of (snd (on st r e)) r =
           Some (triggers (config c) @ [\<lparr>trigger_from = e, trigger_to = r\<rparr>]) \<and>
         map_option length (triggers_of (snd (on st r e)) r) =
           Some (Suc (length (triggers (config c))))"
  using assms by (simp add: on_def triggers_of_def compute_at_update_config trigger_def)

theorem on_appends_trigger_witness:
  "fst (on site 0 2) = Inr 0 \<and>
   triggers_of (snd (on site 0 2)) 0 = Some [\<lparr>trigger_from = 2, trigger_to = 0\<rparr>] \<and>
   map_option length (triggers_of (snd (on site 0 2)) 0) = Some 1"
  using on_appends_trigger [OF site_worker, of 2] by simp

subsection \<open>The setters\<close>

text \<open>
  C8. \<^verbatim>\<open>vcs(u)\<close> writes \<^verbatim>\<open>config.vcs\<close> and nothing else, \<^verbatim>\<open>code(k)\<close> writes
  \<^verbatim>\<open>config.code\<close> and nothing else; after both, in either order, \<^verbatim>\<open>config.vcs\<close> is \<open>u\<close>
  and \<^verbatim>\<open>config.code\<close> is \<open>k\<close>, and neither call threw.
\<close>

theorem vcs_and_code_coexist:
  assumes "compute_at st r = Some c"
  shows "compute_at (snd (vcs st r u)) r =
           Some (c\<lparr>config := (config c)\<lparr>config_vcs := Some u\<rparr>\<rparr>) \<and>
         compute_at (snd (code st r k)) r =
           Some (c\<lparr>config := (config c)\<lparr>config_code := Some k\<rparr>\<rparr>) \<and>
         fst (chain st r [Vcs u, Code k]) = Inr r \<and>
         compute_at (snd (chain st r [Vcs u, Code k])) r =
           Some (c\<lparr>config := (config c)\<lparr>config_vcs := Some u, config_code := Some k\<rparr>\<rparr>) \<and>
         fst (chain st r [Code k, Vcs u]) = Inr r \<and>
         compute_at (snd (chain st r [Code k, Vcs u])) r =
           Some (c\<lparr>config := (config c)\<lparr>config_vcs := Some u, config_code := Some k\<rparr>\<rparr>)"
  using assms by (simp add: vcs_def code_def compute_at_update_config)

theorem vcs_and_code_coexist_witness:
  "(\<exists>c. compute_at (snd (chain site 0 [Vcs ''https://example.org/repo.git'',
                                        Code ''exports.handler = f''])) 0 = Some c \<and>
        config_vcs (config c) = Some ''https://example.org/repo.git'' \<and>
        config_code (config c) = Some ''exports.handler = f'') \<and>
   (\<exists>c. compute_at (snd (chain site 0 [Code ''exports.handler = f'',
                                        Vcs ''https://example.org/repo.git''])) 0 = Some c \<and>
        config_vcs (config c) = Some ''https://example.org/repo.git'' \<and>
        config_code (config c) = Some ''exports.handler = f'')"
  using vcs_and_code_coexist [OF site_worker, of "''https://example.org/repo.git''"
      "''exports.handler = f''"]
  by simp

subsection \<open>Chaining\<close>

lemma invoke_keeps_objects:
  "compute_at st t \<noteq> None \<Longrightarrow> compute_at (snd (invoke st r c)) t \<noteq> None"
  by (cases c)
     (auto simp: vcs_def code_def description_def env_def tag_def on_def use_def Let_def
        compute_at_update_config split: option.splits)

lemma invoke_returns_self: "callable st c \<Longrightarrow> fst (invoke st r c) = Inr r"
  by (cases c)
     (auto simp: vcs_def code_def description_def env_def tag_def on_def use_def Let_def
        split: option.splits)

lemma callable_invoke: "callable st c' \<Longrightarrow> callable (snd (invoke st r c)) c'"
  by (cases c') (simp_all add: invoke_keeps_objects)

lemma chain_returns_self:
  "list_all (callable st) cs \<Longrightarrow> fst (chain st r cs) = Inr r"
proof (induction cs arbitrary: st)
  case Nil
  then show ?case by simp
next
  case (Cons c cs)
  obtain res st' where inv: "invoke st r c = (res, st')"
    by (cases "invoke st r c")
  from Cons.prems have "callable st c" by simp
  with inv have res: "res = Inr r"
    using invoke_returns_self [of st c r] by simp
  have "list_all (callable st') cs"
    using Cons.prems inv callable_invoke [of st _ r c] by (auto simp: list_all_iff)
  then have "fst (chain st' r cs) = Inr r" by (rule Cons.IH)
  with inv res show ?case by simp
qed

text \<open>
  The claim C6 as it is written fails on \<^verbatim>\<open>use\<close>: called with an argument that has no
  \<^verbatim>\<open>config\<close> (here an internal event), it throws on the read of \<^verbatim>\<open>resource.config.id\<close>
  and returns nothing.
\<close>

theorem use_without_config_throws:
  "compute_at site 0 \<noteq> None \<and>
   lookup site 2 = Some (EventObj \<lparr>event_meta_type = InternalEvent,
                                    event_name = ''MyInternalEvent''\<rparr>) \<and>
   use site 0 2 [''read''] None = (Inl TypeError, site) \<and>
   fst (use site 0 2 [''read''] None) \<noteq> Inr 0"
  by (simp add: site_def boot_def compute_def ievent_def validateId_def grammar_ok_def
      alphanumerics_def uuid_def alloc_def freeze_def use_def compute_at_def lookup_def)

text \<open>
  C6, amended. \<^verbatim>\<open>vcs\<close>, \<^verbatim>\<open>code\<close>, \<^verbatim>\<open>description\<close>, \<^verbatim>\<open>env\<close>, \<^verbatim>\<open>tag\<close> and \<^verbatim>\<open>on\<close>
  return the resource they were called on, whatever their arguments; \<^verbatim>\<open>use\<close> returns it
  when its target has a config, and otherwise throws a TypeError and writes nothing. So
  \<^verbatim>\<open>r.tag("a","b").env("x","y")\<close> is \<open>r\<close>, and so is every chain whose \<^verbatim>\<open>use\<close> calls have
  such targets.
\<close>

theorem fluent_methods_return_self:
  "fst (vcs st r url) = Inr r \<and> fst (code st r content) = Inr r \<and>
   fst (description st r txt) = Inr r \<and> fst (env st r name v) = Inr r \<and>
   fst (tag st r key v) = Inr r \<and> fst (on st r event) = Inr r \<and>
   (compute_at st t \<noteq> None \<longrightarrow> fst (use st r t actions alias) = Inr r) \<and>
   (compute_at st t = None \<longrightarrow> use st r t actions alias = (Inl TypeError, st)) \<and>
   fst (chain st r [Tag ''a'' ''b'', Env ''x'' ''y'']) = Inr r \<and>
   (list_all (callable st) cs \<longrightarrow> fst (chain st r cs) = Inr r)"
  using chain_returns_self [of st cs r]
  by (auto simp: vcs_def code_def description_def env_def tag_def on_def use_def Let_def
      split: option.splits)

theorem fluent_methods_return_self_witness:
  "fst (use site 0 1 [''read''] (Some ''db'')) = Inr 0 \<and>
   use site 0 2 [''read''] (Some ''db'') = (Inl TypeError, site) \<and>
   fst (chain site 0 [Tag ''a'' ''b'', Env ''x'' ''y'']) = Inr 0 \<and>
   fst (chain site 0 [Vcs ''u'', On 2, Use 1 [''read''] None, Description ''d'']) = Inr 0"
proof -
  have c: "list_all (callable site) [Vcs ''u'', On 2, Use 1 [''read''] None, Description ''d'']"
    using site_store by simp
  have 1: "compute_at site 1 \<noteq> None"
    using site_store by simp
  from fluent_methods_return_self [of site 0 _ _ _ _ _ _ _ 1 "[''read'']" "Some ''db''"
      "[Vcs ''u'', On 2, Use 1 [''read''] None, Description ''d'']"] c 1
  have a: "fst (use site 0 1 [''read''] (Some ''db'')) = Inr 0 \<and>
     fst (chain site 0 [Tag ''a'' ''b'', Env ''x'' ''y'']) = Inr 0 \<and>
     fst (chain site 0 [Vcs ''u'', On 2, Use 1 [''read''] None, Description ''d'']) = Inr 0"
    by blast
  from fluent_methods_return_self [of site 0 _ _ _ _ _ _ _ 2 "[''read'']" "Some ''db''" "[]"]
    site_event
  have b: "use site 0 2 [''read''] (Some ''db'') = (Inl TypeError, site)"
    by blast
  from a b show ?thesis by simp
qed

subsection \<open>The sealed fields\<close>

lemma compute_at_issued [simp]: "compute_at (st\<lparr>issued := n\<rparr>) a = compute_at st a"
  by (simp add: compute_at_def lookup_def)

lemma compute_at_heap_update:
  "compute_at (st\<lparr>heap := (heap st)[r := ComputeObj c']\<rparr>) a =
     (if a = r \<and> r < length (heap st) then Some c' else compute_at st a)"
  by (simp add: compute_at_def lookup_def)

lemma alloc_keeps_objects:
  "compute_at st a = Some c \<Longrightarrow> compute_at (snd (alloc st ob)) a = Some c"
  using compute_at_in_heap [of st a c] by (simp add: compute_at_alloc)

lemma compute_result:
  "snd (compute st ident rt) = st \<or>
   (\<exists>ob. snd (compute st ident rt) = snd (alloc (st\<lparr>issued := Suc (issued st)\<rparr>) ob))"
  by (auto simp: compute_def uuid_def Let_def case_prod_unfold split: sum.splits)

lemma compute_keeps_objects:
  assumes "compute_at st a = Some c"
  shows "compute_at (snd (compute st ident rt)) a = Some c"
proof -
  from assms have "compute_at (st\<lparr>issued := Suc (issued st)\<rparr>) a = Some c"
    by simp
  then have "compute_at (snd (alloc (st\<lparr>issued := Suc (issued st)\<rparr>) ob)) a = Some c" for ob
    by (rule alloc_keeps_objects)
  with assms compute_result [of st ident rt] show ?thesis
    by auto
qed

lemma ievent_keeps_objects:
  assumes "compute_at st a = Some c"
  shows "compute_at (snd (ievent st name)) a = Some c"
  using assms alloc_keeps_objects [OF assms]
  by (simp add: ievent_def Let_def case_prod_unfold split: sum.splits)

text \<open>No method writes \<^verbatim>\<open>meta\<close>, \<^verbatim>\<open>config.id\<close> or a seal, on any object of the store.\<close>

lemma invoke_sealed_part:
  assumes "compute_at st a = Some c"
  shows "\<exists>c'. compute_at (snd (invoke st self cl)) a = Some c' \<and> sealed_part c' = sealed_part c"
  using assms
  by (cases cl)
     (auto simp: vcs_def code_def description_def env_def tag_def on_def use_def Let_def
        compute_at_update_config sealed_part_def split: option.splits)

lemma write_field_keeps_id:
  "field_name w \<noteq> ''id'' \<Longrightarrow> config_id (write_field w cfg) = config_id cfg"
  by (cases w) simp_all

lemma sealed_part_is_sealed:
  "sealed_part c' = sealed_part c \<Longrightarrow> is_sealed c \<Longrightarrow> is_sealed c'"
  by (simp add: sealed_part_def is_sealed_def)

lemma run_sealed_part:
  assumes "compute_at st a = Some c" and "is_sealed c"
  shows "\<exists>c'. compute_at (run st s) a = Some c' \<and> sealed_part c' = sealed_part c"
proof (cases s)
  case (New_compute ident rt)
  with assms(1) show ?thesis
    by (simp add: compute_keeps_objects)
next
  case (New_event name)
  with assms(1) show ?thesis
    by (simp add: ievent_keeps_objects)
next
  case (Call r cl)
  with assms(1) show ?thesis
    using invoke_sealed_part by simp
next
  case (Assign_meta r m)
  with assms show ?thesis
    by (auto simp: assign_meta_def is_sealed_def compute_at_heap_update split: option.splits)
next
  case (Assign_config r w)
  show ?thesis
  proof (cases "r = a")
    case True
    show ?thesis
    proof (cases "field_name w \<in> set (config_sealed c)")
      case True
      with \<open>r = a\<close> assms(1) Assign_config show ?thesis
        by (simp add: assign_config_def)
    next
      case False
      with assms(2) have "field_name w \<noteq> ''id''"
        by (auto simp: is_sealed_def)
      with False \<open>r = a\<close> assms(1) Assign_config show ?thesis
        by (simp add: assign_config_def compute_at_update_config sealed_part_def
            write_field_keeps_id)
    qed
  next
    case False
    with assms(1) Assign_config show ?thesis
      by (auto simp: assign_config_def compute_at_update_config split: option.splits)
  qed
qed

lemma exec_sealed_part:
  assumes "compute_at st a = Some c" and "is_sealed c"
  shows "\<exists>c'. compute_at (exec st script) a = Some c' \<and> sealed_part c' = sealed_part c"
  using assms
proof (induction script arbitrary: st c)
  case Nil
  then show ?case by simp
next
  case (Cons s script)
  from run_sealed_part [OF Cons.prems] obtain c1 where
    c1: "compute_at (run st s) a = Some c1" "sealed_part c1 = sealed_part c"
    by blast
  then have "is_sealed c1"
    using Cons.prems(2) sealed_part_is_sealed by blast
  from Cons.IH [OF c1(1) this] c1(2) show ?case by simp
qed

lemma compute_sealed:
  assumes "compute st0 ident rt = (Inr r, st1)"
  shows "\<exists>c. compute_at st1 r = Some c \<and> is_sealed c \<and>
           meta c = \<lparr>meta_id = entropy st0 (issued st0), meta_type = Compute\<rparr> \<and>
           config_id (config c) = ident"
  using assms
  by (auto simp: compute_def uuid_def alloc_def freeze_def is_sealed_def compute_at_def
      lookup_def Let_def split: if_splits sum.splits)

text \<open>
  C7. Let \<open>r\<close> be the resource a call of \<^verbatim>\<open>compute\<close> returned, and \<open>st\<close> the state
  after any script of constructor calls, method calls and assignments. Then \<open>r\<close> still
  has the \<^verbatim>\<open>meta\<close> block (instance identifier and kind tag) and the \<^verbatim>\<open>config.id\<close> of its
  construction; an assignment to \<^verbatim>\<open>r.meta\<close> or to \<^verbatim>\<open>r.config.id\<close> fails with
  ImmutableFieldError and writes nothing; an assignment to any other field of
  \<^verbatim>\<open>r.config\<close> succeeds and writes that field.
\<close>

theorem sealed_fields_stay:
  assumes "compute st0 ident rt = (Inr r, st1)" and "st = exec st1 script"
  shows "\<exists>c. compute_at st r = Some c \<and>
           meta c = \<lparr>meta_id = entropy st0 (issued st0), meta_type = Compute\<rparr> \<and>
           config_id (config c) = ident \<and>
           assign_meta st r m = (Inl ImmutableFieldError, st) \<and>
           assign_config st r (Set_id v) = (Inl ImmutableFieldError, st) \<and>
           (field_name w \<noteq> ''id'' \<longrightarrow>
              fst (assign_config st r w) = Inr () \<and>
              compute_at (snd (assign_config st r w)) r =
                Some (c\<lparr>config := write_field w (config c)\<rparr>))"
proof -
  from compute_sealed [OF assms(1)] obtain c0 where
    c0: "compute_at st1 r = Some c0" "is_sealed c0"
      "meta c0 = \<lparr>meta_id = entropy st0 (issued st0), meta_type = Compute\<rparr>"
      "config_id (config c0) = ident"
    by blast
  from exec_sealed_part [OF c0(1,2), of script] assms(2) obtain c where
    c: "compute_at st r = Some c" "sealed_part c = sealed_part c0"
    by blast
  have sealed: "is_sealed c"
    using c(2) c0(2) sealed_part_is_sealed by blast
  have cs: "config_sealed c = [''id'']"
    using c(2) assms(1) c0(1)
    by (auto simp: sealed_part_def compute_def uuid_def alloc_def freeze_def compute_at_def
      lookup_def Let_def split: if_splits sum.splits)
  have "meta c = meta c0" "config_id (config c) = config_id (config c0)"
    using c(2) by (simp_all add: sealed_part_def)
  with c0(3,4) c(1) sealed cs show ?thesis
    by (auto simp: assign_meta_def assign_config_def is_sealed_def compute_at_update_config)
qed

theorem sealed_fields_stay_witness:
  "\<exists>c. compute_at (exec (snd (compute boot ''worker'' ''nodejs'')) worker_script) 0 = Some c \<and>
        meta c = \<lparr>meta_id = sample_entropy 0, meta_type = Compute\<rparr> \<and>
        config_id (config c) = ''worker'' \<and>
        fst (assign_meta (exec (snd (compute boot ''worker'' ''nodejs'')) worker_script) 0
               \<lparr>meta_id = ''forged'', meta_type = InternalEvent\<rparr>) =
          Inl ImmutableFieldError \<and>
        fst (assign_config (exec (snd (compute boot ''worker'' ''nodejs'')) worker_script) 0
               (Set_id ''other'')) =
          Inl ImmutableFieldError \<and>
        fst (assign_config (exec (snd (compute boot ''worker'' ''nodejs'')) worker_script) 0
               (Set_description ''a worker'')) =
          Inr ()"
proof -
  have "fst (compute boot ''worker'' ''nodejs'') = Inr 0"
    by (simp add: compute_def validateId_def grammar_ok_def alphanumerics_def uuid_def
        alloc_def boot_def)
  then have built:
    "compute boot ''worker'' ''nodejs'' = (Inr 0, snd (compute boot ''worker'' ''nodejs''))"
    by (simp add: prod_eq_iff)
  have boot0: "entropy boot (issued boot) = sample_entropy 0"
    by (simp add: boot_def)
  from sealed_fields_stay [OF built refl, of worker_script
      "\<lparr>meta_id = ''forged'', meta_type = InternalEvent\<rparr>" "''other''"
      "Set_description ''a worker''"] boot0
  show ?thesis
    by auto
qed

subsection \<open>The instance identifier\<close>

text \<open>
  Whether two values of the generator of \<^verbatim>\<open>uuid/v4\<close> differ is a property of a random
  source outside the repository, not of this code (C9). What the constructor does with
  the generator is: it draws once on success, and the identifier of the new object is
  that draw, whatever the label and the runtime. Two constructions with the same label
  hold two successive draws.
\<close>

lemma compute_draws_identifier:
  assumes "ident \<noteq> []" and "grammar_ok ident" and "rt \<noteq> []"
  shows "map_option (\<lambda>c. meta_id (meta c))
           (compute_at (snd (compute st ident rt)) (length (heap st))) =
           Some (entropy st (issued st)) \<and>
         issued (snd (compute st ident rt)) = Suc (issued st) \<and>
         entropy (snd (compute st ident rt)) = entropy st"
  using assms
  by (simp add: compute_def validateId_def uuid_def alloc_def compute_at_def lookup_def)

lemma compute_twice_same_label:
  assumes "ident \<noteq> []" and "grammar_ok ident" and "rt \<noteq> []"
  shows "map_option (\<lambda>c. meta_id (meta c))
           (compute_at (snd (compute (snd (compute st ident rt)) ident rt)) (length (heap st))) =
           Some (entropy st (issued st)) \<and>
         map_option (\<lambda>c. meta_id (meta c))
           (compute_at (snd (compute (snd (compute st ident rt)) ident rt))
              (Suc (length (heap st)))) =
           Some (entropy st (Suc (issued st)))"
  using assms
  by (simp add: compute_def validateId_def uuid_def alloc_def compute_at_def lookup_def
      nth_append)

end
